theory Spec2Isabelle
  imports Main "HOL-Library.AList"
begin

section \<open>Strings\<close>

text \<open>
  A Python \<open>str\<close> is a sequence of Unicode code points. Code points are natural
  numbers here (\<open>U+007B\<close> is \<open>123\<close>), and \<open>cps\<close> writes an ASCII literal as
  its code points.
\<close>

type_synonym codepoint = nat
type_synonym pystr = "codepoint list"

definition cps :: "string \<Rightarrow> pystr" where
  "cps lit = map of_char lit"

text \<open>
  \<open>str.find\<close>: the lowest index at which \<open>sub\<close> occurs in the string, \<open>None\<close> for
  Python's \<open>-1\<close>. \<open>sub in s\<close> is \<open>str_contains\<close>.
\<close>

fun str_find :: "pystr \<Rightarrow> pystr \<Rightarrow> nat option" where
  "str_find [] sub = (if sub = [] then Some 0 else None)"
| "str_find (c # cs) sub =
     (if take (length sub) (c # cs) = sub then Some 0
      else map_option Suc (str_find cs sub))"

definition str_contains :: "pystr \<Rightarrow> pystr \<Rightarrow> bool" where
  "str_contains s sub = (str_find s sub \<noteq> None)"

section \<open>Runs and paragraphs\<close>

text \<open>
  A run of python-docx carries its text and one formatting identity, which the program
  never reads or writes: \<open>run_style\<close> stands for it. A paragraph is the list of its
  runs (\<open>paragraph.runs\<close>).
\<close>

record run =
  run_text :: pystr
  run_style :: nat

type_synonym para = "run list"

definition full_text :: "para \<Rightarrow> pystr" where
  "full_text runs = concat (map run_text runs)"

text \<open>
  \<open>replace_text_in_paragraph\<close>, lines 90 to 109. \<open>splice_run\<close> is the body of the
  loop over the runs for a run that starts at offset \<open>run_start\<close>; \<open>replace_runs\<close> is
  the loop, which advances \<open>current_pos\<close> by the length the run had before it was
  rewritten.
\<close>

definition splice_run :: "nat \<Rightarrow> nat \<Rightarrow> pystr \<Rightarrow> nat \<Rightarrow> run \<Rightarrow> run" where
  "splice_run start_pos end_pos new_text run_start r =
     (let run_end = run_start + length (run_text r) in
      if run_start < end_pos \<and> run_end > start_pos then
        (let overlap_start = max run_start start_pos;
             overlap_end = min run_end end_pos;
             keep_before = (if overlap_start > run_start
                            then take (overlap_start - run_start) (run_text r) else []);
             keep_after = (if overlap_end < run_end
                           then drop (overlap_end - run_start) (run_text r) else [])
         in if run_start \<le> start_pos \<and> start_pos < run_end
            then r\<lparr>run_text := keep_before @ new_text @ keep_after\<rparr>
            else r\<lparr>run_text := keep_before @ keep_after\<rparr>)
      else r)"

fun replace_runs :: "nat \<Rightarrow> nat \<Rightarrow> pystr \<Rightarrow> nat \<Rightarrow> run list \<Rightarrow> run list" where
  "replace_runs start_pos end_pos new_text current_pos [] = []"
| "replace_runs start_pos end_pos new_text current_pos (r # rs) =
     splice_run start_pos end_pos new_text current_pos r
       # replace_runs start_pos end_pos new_text (current_pos + length (run_text r)) rs"

definition replace_text_in_paragraph :: "para \<Rightarrow> pystr \<Rightarrow> pystr \<Rightarrow> para" where
  "replace_text_in_paragraph p old_text new_text =
     (if \<not> str_contains (full_text p) old_text then p
      else case str_find (full_text p) old_text of
             None \<Rightarrow> p
           | Some start_pos \<Rightarrow>
               replace_runs start_pos (start_pos + length old_text) new_text 0 p)"



text \<open>A paragraph whose marker is split over three runs, and occurs a second time.\<close>

definition ex_para :: para where
  "ex_para = [\<lparr>run_text = cps ''Dear '', run_style = 1\<rparr>,
              \<lparr>run_text = cps ''{'', run_style = 2\<rparr>,
              \<lparr>run_text = cps ''{Na'', run_style = 3\<rparr>,
              \<lparr>run_text = cps ''me}}'', run_style = 4\<rparr>,
              \<lparr>run_text = cps '', see {{Name}}'', run_style = 5\<rparr>]"

section \<open>The two regular expressions\<close>

abbreviation LBRACE :: codepoint where "LBRACE \<equiv> 123"
abbreviation RBRACE :: codepoint where "RBRACE \<equiv> 125"
abbreviation NEWLINE :: codepoint where "NEWLINE \<equiv> 10"

text \<open>
  \<open>re.compile(r'\{\{(.+?)\}\}').findall\<close>. After an opening \<open>{{\<close>, \<open>lazy_body\<close> is
  the lazy group \<open>(.+?)\<close> followed by \<open>}}\<close>: it takes one character, which must not be
  a newline (no DOTALL flag), then stops at the first position where \<open>}}\<close> follows. It
  returns the captured text and the text after the match. \<open>token_findall\<close> scans from
  the left, resumes after each match, and moves one character on where none starts.
\<close>

fun lazy_body :: "pystr \<Rightarrow> pystr \<Rightarrow> (pystr \<times> pystr) option" where
  "lazy_body acc [] = None"
| "lazy_body acc (c # cs) =
     (if c = NEWLINE then None
      else if take 2 cs = [RBRACE, RBRACE] then Some (acc @ [c], drop 2 cs)
      else lazy_body (acc @ [c]) cs)"

lemma lazy_body_shorter:
  "lazy_body acc s = Some (tok, rest) \<Longrightarrow> length rest < length s"
  by (induction acc s rule: lazy_body.induct) (auto split: if_splits)

function token_findall :: "pystr \<Rightarrow> pystr list" where
  "token_findall [] = []"
| "token_findall (c # cs) =
     (if c = LBRACE \<and> take 1 cs = [LBRACE] then
        (case lazy_body [] (drop 1 cs) of
           Some (tok, rest) \<Rightarrow> tok # token_findall rest
         | None \<Rightarrow> token_findall cs)
      else token_findall cs)"
  by pat_completeness auto
termination
proof (relation "measure length")
  fix c cs x2 x y
  assume "lazy_body [] (drop 1 cs) = Some x2" "(x, y) = x2"
  then have "length y < length (drop 1 cs)"
    using lazy_body_shorter[of "[]" "drop 1 cs" x y] by simp
  then show "(y, c # cs) \<in> measure length" by simp
qed auto

text \<open>
  \<open>re.compile(r'(?<!\{)\{[^}]*\}|[^{]*\}[^{]*').findall\<close>; \<open>prev\<close> is the character
  before the position, for the lookbehind. The first alternative needs a \<open>{\<close> here that
  no \<open>{\<close> precedes, and a \<open>}\<close> somewhere after it: it matches up to the first \<open>}\<close>.
  The second alternative matches the whole stretch up to the next \<open>{\<close> (or the end)
  when that stretch holds a \<open>}\<close>. Both matches are non-empty.
\<close>

function invalid_findall :: "codepoint option \<Rightarrow> pystr \<Rightarrow> pystr list" where
  "invalid_findall prev [] = []"
| "invalid_findall prev (c # cs) =
     (if prev \<noteq> Some LBRACE \<and> c = LBRACE \<and> RBRACE \<in> set cs then
        (LBRACE # takeWhile (\<lambda>x. x \<noteq> RBRACE) cs @ [RBRACE])
          # invalid_findall (Some RBRACE) (drop 1 (dropWhile (\<lambda>x. x \<noteq> RBRACE) cs))
      else if RBRACE \<in> set (takeWhile (\<lambda>x. x \<noteq> LBRACE) (c # cs)) then
        takeWhile (\<lambda>x. x \<noteq> LBRACE) (c # cs)
          # invalid_findall (Some (last (takeWhile (\<lambda>x. x \<noteq> LBRACE) (c # cs))))
              (dropWhile (\<lambda>x. x \<noteq> LBRACE) (c # cs))
      else invalid_findall (Some c) cs)"
  by pat_completeness auto
termination
proof (relation "measure (\<lambda>(prev, s). length s)")
  fix prev :: "codepoint option" and c :: codepoint and cs :: pystr
  have "length (dropWhile (\<lambda>x. x \<noteq> RBRACE) cs) \<le> length cs"
    by (rule length_dropWhile_le)
  then show "((Some RBRACE, drop 1 (dropWhile (\<lambda>x. x \<noteq> RBRACE) cs)), prev, c # cs)
        \<in> measure (\<lambda>(prev, s). length s)" by simp
next
  fix prev :: "codepoint option" and c :: codepoint and cs :: pystr
  assume "RBRACE \<in> set (takeWhile (\<lambda>x. x \<noteq> LBRACE) (c # cs))"
  then have "c \<noteq> LBRACE" by (auto split: if_splits)
  moreover have "length (dropWhile (\<lambda>x. x \<noteq> LBRACE) cs) \<le> length cs"
    by (rule length_dropWhile_le)
  ultimately show "((Some (last (takeWhile (\<lambda>x. x \<noteq> LBRACE) (c # cs))),
           dropWhile (\<lambda>x. x \<noteq> LBRACE) (c # cs)), prev, c # cs)
        \<in> measure (\<lambda>(prev, s). length s)" by simp
qed auto

section \<open>Documents\<close>

text \<open>
  What the program reads of a python-docx \<open>Document\<close>: \<open>doc.paragraphs\<close> (the body's
  paragraphs), \<open>doc.tables\<close> (the body's top-level tables), and \<open>doc.sections\<close>, each
  with the paragraphs of its header and of its footer. A table has rows, a row has
  cells, and a cell has its own paragraphs (\<open>cell.paragraphs\<close>) and the tables nested
  in it (\<open>cell.tables\<close>). Paragraphs are values here: no two places of a document share
  one paragraph object (no merged cells, no header linked to the previous section).
\<close>

datatype table = Table (rows: "cell list list")
  and cell = Cell (cell_paragraphs: "para list") (cell_tables: "table list")

record doc_section =
  header :: "para list"
  footer :: "para list"

record document =
  paragraphs :: "para list"
  tables :: "table list"
  sections :: "doc_section list"

text \<open>\<open>extract_placeholders\<close>, lines 20 to 45: three loops that add to one set.\<close>

definition extract_placeholders :: "document \<Rightarrow> pystr set" where
  "extract_placeholders doc =
     (\<Union>p\<in>set (paragraphs doc). set (token_findall (full_text p)))
     \<union> (\<Union>t\<in>set (tables doc). \<Union>row\<in>set (rows t). \<Union>c\<in>set row.
          \<Union>p\<in>set (cell_paragraphs c). set (token_findall (full_text p)))
     \<union> (\<Union>s\<in>set (sections doc).
          (\<Union>h\<in>set (header s). set (token_findall (full_text h)))
          \<union> (\<Union>f\<in>set (footer s). set (token_findall (full_text f))))"

text \<open>\<open>find_invalid_braces\<close>, lines 48 to 67, with its inner \<open>check_text\<close>.\<close>

definition check_text :: "pystr \<Rightarrow> pystr set" where
  "check_text txt = set (invalid_findall None txt)"

definition find_invalid_braces :: "document \<Rightarrow> pystr set" where
  "find_invalid_braces doc =
     (\<Union>p\<in>set (paragraphs doc). check_text (full_text p))
     \<union> (\<Union>t\<in>set (tables doc). \<Union>row\<in>set (rows t). \<Union>c\<in>set row.
          \<Union>p\<in>set (cell_paragraphs c). check_text (full_text p))
     \<union> (\<Union>s\<in>set (sections doc).
          (\<Union>h\<in>set (header s). check_text (full_text h))
          \<union> (\<Union>f\<in>set (footer s). check_text (full_text f)))"

text \<open>
  The paragraphs those loops (and the loops of \<open>replace_placeholders\<close>) visit, in their
  order: the body's, then those of the cells of the body's tables, then each section's
  header and footer.
\<close>

definition table_paragraphs :: "table \<Rightarrow> para list" where
  "table_paragraphs t = concat (map (\<lambda>row. concat (map cell_paragraphs row)) (rows t))"

definition visited_paragraphs :: "document \<Rightarrow> para list" where
  "visited_paragraphs doc =
     paragraphs doc
     @ concat (map table_paragraphs (tables doc))
     @ concat (map (\<lambda>s. header s @ footer s) (sections doc))"

text \<open>
  The containers of the specification: body paragraphs, table cells recursively
  (tables may nest inside cells), and the header and footer of every section.
\<close>

fun table_containers :: "table \<Rightarrow> para list"
  and cell_containers :: "cell \<Rightarrow> para list" where
  "table_containers (Table rs) = concat (map (\<lambda>row. concat (map cell_containers row)) rs)"
| "cell_containers (Cell ps ts) = ps @ concat (map table_containers ts)"

definition spec_containers :: "document \<Rightarrow> para list" where
  "spec_containers doc =
     paragraphs doc
     @ concat (map table_containers (tables doc))
     @ concat (map (\<lambda>s. header s @ footer s) (sections doc))"

section \<open>Substitution\<close>

datatype py_error = KeyError | TypeError

text \<open>
  A mapping is the dict \<open>placeholder \<rightarrow> (column or None, score)\<close> in its insertion
  order, which is the order \<open>mapping.items()\<close> iterates in. A row is the dict
  \<open>row.to_dict()\<close> from column names to values, each value already rendered by \<open>str\<close>.
\<close>

type_synonym mapping = "(pystr \<times> (pystr option \<times> nat)) list"
type_synonym row_data = "pystr \<rightharpoonup> pystr"

text \<open>The f-string of line 115: two braces, the placeholder, two braces.\<close>

definition marker :: "pystr \<Rightarrow> pystr" where
  "marker placeholder = [LBRACE, LBRACE] @ placeholder @ [RBRACE, RBRACE]"

text \<open>
  Lines 117 to 128, for one placeholder: one call of \<open>replace_text_in_paragraph\<close> on
  every visited paragraph. The tables nested in a cell are not touched.
\<close>

definition replace_in_cell :: "pystr \<Rightarrow> pystr \<Rightarrow> cell \<Rightarrow> cell" where
  "replace_in_cell old_text new_text c =
     Cell (map (\<lambda>p. replace_text_in_paragraph p old_text new_text) (cell_paragraphs c))
          (cell_tables c)"

definition replace_in_table :: "pystr \<Rightarrow> pystr \<Rightarrow> table \<Rightarrow> table" where
  "replace_in_table old_text new_text t =
     Table (map (map (replace_in_cell old_text new_text)) (rows t))"

definition replace_in_section :: "pystr \<Rightarrow> pystr \<Rightarrow> doc_section \<Rightarrow> doc_section" where
  "replace_in_section old_text new_text s =
     s\<lparr>header := map (\<lambda>p. replace_text_in_paragraph p old_text new_text) (header s),
       footer := map (\<lambda>p. replace_text_in_paragraph p old_text new_text) (footer s)\<rparr>"

definition replace_in_document :: "pystr \<Rightarrow> pystr \<Rightarrow> document \<Rightarrow> document" where
  "replace_in_document old_text new_text doc =
     doc\<lparr>paragraphs := map (\<lambda>p. replace_text_in_paragraph p old_text new_text) (paragraphs doc),
         tables := map (replace_in_table old_text new_text) (tables doc),
         sections := map (replace_in_section old_text new_text) (sections doc)\<rparr>"

text \<open>
  \<open>replace_placeholders\<close>, lines 112 to 146. \<open>substitute\<close> is the loop over
  \<open>mapping.items()\<close>: an entry whose column is \<open>None\<close> or the empty string is skipped
  (\<open>if column\<close>), \<open>data[column]\<close> raises \<open>KeyError\<close> for a column the row does not have.
  The second half of the function scans the document as \<open>extract_placeholders\<close> does.
\<close>

fun substitute :: "document \<Rightarrow> row_data \<Rightarrow> mapping \<Rightarrow> py_error + document" where
  "substitute doc data [] = Inr doc"
| "substitute doc data ((placeholder, (column, score)) # rest) =
     (case column of
        None \<Rightarrow> substitute doc data rest
      | Some col \<Rightarrow>
          if col = [] then substitute doc data rest
          else (case data col of
                  None \<Rightarrow> Inl KeyError
                | Some v \<Rightarrow> substitute (replace_in_document (marker placeholder) v doc) data rest))"

definition replace_placeholders ::
    "document \<Rightarrow> row_data \<Rightarrow> mapping \<Rightarrow> py_error + (document \<times> pystr set)" where
  "replace_placeholders doc data mapping =
     (case substitute doc data mapping of
        Inl e \<Rightarrow> Inl e
      | Inr doc' \<Rightarrow> Inr (doc', extract_placeholders doc'))"

text \<open>
  \<open>generate_documents\<close>, lines 149 to 163. \<open>generate_row\<close> is the body of the loop for
  one row: every row starts from a fresh copy of the template. The report keeps the
  elements of the tuple the source appends (the document stands for its saved bytes).
\<close>

record dataframe =
  df_columns :: "pystr list"
  df_rows :: "row_data list"

record row_report =
  out_doc :: document
  replaced_placeholders :: "pystr set"
  unreplaced :: "pystr set"
  unused_columns :: "pystr set"
  invalid_braces :: "pystr set"
  row :: row_data

definition generate_row ::
    "pystr list \<Rightarrow> document \<Rightarrow> mapping \<Rightarrow> row_data \<Rightarrow> py_error + row_report" where
  "generate_row cols template mapping data =
     (case replace_placeholders template data mapping of
        Inl e \<Rightarrow> Inl e
      | Inr (temp_doc, unrepl) \<Rightarrow>
          (let replaced = fst ` set mapping - unrepl;
               used_columns = (\<Union>p\<in>replaced.
                  case map_of mapping p of
                    Some (Some col, score) \<Rightarrow> if col \<noteq> [] then {col} else {}
                  | _ \<Rightarrow> {});
               unused = set cols - used_columns
           in Inr \<lparr>out_doc = temp_doc, replaced_placeholders = replaced, unreplaced = unrepl,
                   unused_columns = unused, invalid_braces = find_invalid_braces temp_doc,
                   row = data\<rparr>))"

fun generate_rows ::
    "pystr list \<Rightarrow> document \<Rightarrow> mapping \<Rightarrow> row_data list \<Rightarrow> py_error + row_report list" where
  "generate_rows cols template mapping [] = Inr []"
| "generate_rows cols template mapping (data # rest) =
     (case generate_row cols template mapping data of
        Inl e \<Rightarrow> Inl e
      | Inr r \<Rightarrow>
          (case generate_rows cols template mapping rest of
             Inl e \<Rightarrow> Inl e
           | Inr rs \<Rightarrow> Inr (r # rs)))"

definition generate_documents ::
    "dataframe \<Rightarrow> document \<Rightarrow> mapping \<Rightarrow> py_error + row_report list" where
  "generate_documents df template mapping =
     generate_rows (df_columns df) template mapping (df_rows df)"

text \<open>Small documents for the examples: a paragraph of one run, a document of body paragraphs.\<close>

definition plain :: "pystr \<Rightarrow> para" where
  "plain txt = [\<lparr>run_text = txt, run_style = 0\<rparr>]"

definition body_doc :: "para list \<Rightarrow> document" where
  "body_doc ps = \<lparr>paragraphs = ps, tables = [], sections = []\<rparr>"




section \<open>Normalisation and fuzzy matching\<close>

text \<open>
  \<open>str.isalnum\<close> and \<open>str.lower\<close> read the Unicode character database of the Python
  runtime, which is not part of the repository: a \<open>chardb\<close> holds the two functions,
  and the functions below take it as a parameter. \<open>str.lower\<close> works on the whole
  string, since the lower case of one character can be several characters.
\<close>

record chardb =
  isalnum :: "codepoint \<Rightarrow> bool"
  lower :: "pystr \<Rightarrow> pystr"

text \<open>\<open>normalize_text\<close>, lines 16 to 17: keep the alphanumeric characters, then lower-case.\<close>

definition normalize_text :: "chardb \<Rightarrow> pystr \<Rightarrow> pystr" where
  "normalize_text db txt = lower db (filter (isalnum db) txt)"

text \<open>
  The database's entries for ASCII, for \<open>U+0130\<close> (LATIN CAPITAL LETTER I WITH DOT
  ABOVE, \<open>304\<close>: a letter whose lower case is the two code points \<open>U+0069 U+0307\<close>)
  and for \<open>U+0307\<close> (COMBINING DOT ABOVE, \<open>775\<close>: a mark, neither a letter nor a
  digit, without case). \<open>ucd_fragment\<close> is the database on these code points only; it
  gives every other code point no case and calls it non-alphanumeric, and nothing below
  evaluates it there.
\<close>

definition ucd_isalnum :: "codepoint \<Rightarrow> bool" where
  "ucd_isalnum c =
     ((48 \<le> c \<and> c \<le> 57) \<or> (65 \<le> c \<and> c \<le> 90) \<or> (97 \<le> c \<and> c \<le> 122) \<or> c = 304)"

definition ucd_lower_cp :: "codepoint \<Rightarrow> pystr" where
  "ucd_lower_cp c =
     (if 65 \<le> c \<and> c \<le> 90 then [c + 32] else if c = 304 then [105, 775] else [c])"

definition ucd_fragment :: chardb where
  "ucd_fragment = \<lparr>isalnum = ucd_isalnum, lower = (\<lambda>s. concat (map ucd_lower_cp s))\<rparr>"

text \<open>
  The scorer \<open>fuzz.token_sort_ratio\<close>, with the preprocessing \<open>process.extractOne\<close>
  applies to the query and to each choice before it scores them, is a parameter: a
  function from the query and a choice to a score.
\<close>

type_synonym scorer = "pystr \<Rightarrow> pystr \<Rightarrow> nat"

text \<open>
  Modelled from the spec: \<open>process.extractOne\<close> of the fuzzywuzzy library, which is not
  in the repository. It "selects the single highest-scoring candidate; ties broken by
  first occurrence" in the order of the candidates, and gives "candidate or none": none
  when there is no candidate.
\<close>

definition extractOne :: "scorer \<Rightarrow> pystr \<Rightarrow> pystr list \<Rightarrow> (pystr \<times> nat) option" where
  "extractOne sc query choices =
     (case choices of
        [] \<Rightarrow> None
      | c # cs \<Rightarrow>
          Some (fold (\<lambda>x best. if snd best < sc query x then (x, sc query x) else best)
                  cs (c, sc query c)))"

text \<open>
  \<open>fuzzy_match_placeholders\<close>, lines 70 to 87. The dict comprehension of line 74 is
  \<open>norm_columns\<close>: a dict in insertion order, where a repeated column keeps its first
  place. \<open>match_placeholder\<close> is the body of the loop: unpacking the result of
  \<open>extractOne\<close> raises \<open>TypeError\<close> when it is \<open>None\<close>; the inner loop stops at the
  first column whose normal form is the best match, and assigns nothing when there is
  none. The placeholders, a set in the source, come as the list of their iteration order.
\<close>

definition norm_columns :: "chardb \<Rightarrow> pystr list \<Rightarrow> (pystr \<times> pystr) list" where
  "norm_columns db columns =
     fold (\<lambda>col d. AList.update col (normalize_text db col) d) columns []"

definition match_placeholder ::
    "chardb \<Rightarrow> scorer \<Rightarrow> pystr list \<Rightarrow> nat \<Rightarrow> pystr \<Rightarrow> mapping \<Rightarrow> py_error + mapping" where
  "match_placeholder db sc columns threshold placeholder mapping =
     (let norm_placeholder = normalize_text db placeholder
      in case extractOne sc norm_placeholder (map snd (norm_columns db columns)) of
           None \<Rightarrow> Inl TypeError
         | Some (best_match, score) \<Rightarrow>
             if score \<ge> threshold then
               (case find (\<lambda>(col, norm_col). norm_col = best_match) (norm_columns db columns) of
                  Some (col, norm_col) \<Rightarrow>
                    Inr (AList.update placeholder (Some col, score) mapping)
                | None \<Rightarrow> Inr mapping)
             else Inr (AList.update placeholder (None, 0) mapping))"

fun fuzzy_loop ::
    "chardb \<Rightarrow> scorer \<Rightarrow> pystr list \<Rightarrow> nat \<Rightarrow> pystr list \<Rightarrow> mapping \<Rightarrow> py_error + mapping" where
  "fuzzy_loop db sc columns threshold [] mapping = Inr mapping"
| "fuzzy_loop db sc columns threshold (placeholder # rest) mapping =
     (case match_placeholder db sc columns threshold placeholder mapping of
        Inl e \<Rightarrow> Inl e
      | Inr mapping' \<Rightarrow> fuzzy_loop db sc columns threshold rest mapping')"

definition fuzzy_match_placeholders ::
    "chardb \<Rightarrow> scorer \<Rightarrow> pystr list \<Rightarrow> pystr list \<Rightarrow> nat \<Rightarrow> py_error + mapping" where
  "fuzzy_match_placeholders db sc placeholders columns threshold =
     fuzzy_loop db sc columns threshold placeholders []"

text \<open>
  A scorer for the examples: 100 on equal strings, as \<open>fuzz.token_sort_ratio\<close> gives,
  and 0 on all others.
\<close>

definition eq_scorer :: scorer where
  "eq_scorer a b = (if a = b then 100 else 0)"

section \<open>\<open>str.find\<close> finds the first occurrence\<close>


lemma str_find_least:
  "str_find s sub = Some i \<Longrightarrow> j < i \<Longrightarrow> take (length sub) (drop j s) \<noteq> sub"
proof (induction s arbitrary: i j)
  case Nil
  then show ?case by (simp split: if_splits)
next
  case (Cons c cs)
  show ?case
  proof (cases "take (length sub) (c # cs) = sub")
    case True
    with Cons.prems show ?thesis by simp
  next
    case False
    with Cons.prems obtain k where k: "str_find cs sub = Some k" "i = Suc k" by auto
    show ?thesis
    proof (cases j)
      case 0
      with False show ?thesis by simp
    next
      case (Suc j')
      with Cons.prems k have "j' < k" by simp
      from Cons.IH[OF k(1) this] Suc show ?thesis by simp
    qed
  qed
qed

lemma str_find_None:
  "str_find s sub = None \<Longrightarrow> take (length sub) (drop j s) \<noteq> sub"
proof (induction s arbitrary: j)
  case Nil
  then show ?case by (auto split: if_splits)
next
  case (Cons c cs)
  then have ne: "take (length sub) (c # cs) \<noteq> sub" and rec: "str_find cs sub = None"
    by (auto split: if_splits)
  show ?case
  proof (cases j)
    case 0
    with ne show ?thesis by simp
  next
    case (Suc j')
    with Cons.IH[OF rec] show ?thesis by simp
  qed
qed

lemma str_find_occurrence: "str_find (A @ sub @ B) sub \<noteq> None"
proof
  assume "str_find (A @ sub @ B) sub = None"
  from str_find_None[OF this, of "length A"] show False by simp
qed

section \<open>Replacing inside a paragraph\<close>










text \<open>
  C9. When the target text does not occur in the concatenation of the paragraph's run
  texts, \<open>replace_text_in_paragraph\<close> returns the paragraph as it was: every run keeps
  its text (and its formatting), whatever the replacement text is.
\<close>

theorem replace_text_in_paragraph_noop:
  "\<not> str_contains (full_text p) target \<Longrightarrow> replace_text_in_paragraph p target R = p"
  by (simp add: replace_text_in_paragraph_def)

theorem replace_text_in_paragraph_noop_witness:
  "\<not> str_contains (full_text ex_para) (cps ''{{Code}}'')
   \<and> replace_text_in_paragraph ex_para (cps ''{{Code}}'') (cps ''X1'') = ex_para"
  using replace_text_in_paragraph_noop[of ex_para "cps ''{{Code}}''" "cps ''X1''"]
  by (simp add: ex_para_def cps_def full_text_def str_contains_def)



section \<open>The traversal and the scanner\<close>


lemma find_invalid_braces_visited:
  "find_invalid_braces doc = (\<Union>p\<in>set (visited_paragraphs doc). check_text (full_text p))"
  by (auto simp: find_invalid_braces_def visited_paragraphs_def table_paragraphs_def)









lemma table_paragraphs_containers: "set (table_paragraphs t) \<subseteq> set (table_containers t)"
proof (cases t)
  case (Table rs)
  have "set (cell_paragraphs c) \<subseteq> set (cell_containers c)" for c by (cases c) simp
  then show ?thesis unfolding Table by (fastforce simp: table_paragraphs_def)
qed

lemma visited_paragraphs_containers:
  "set (visited_paragraphs doc) \<subseteq> set (spec_containers doc)"
  using table_paragraphs_containers
  by (auto simp: visited_paragraphs_def spec_containers_def)

section \<open>Scanning and substituting a document\<close>

text \<open>
  C5. The claim: \<open>find_invalid_braces\<close> reports a string exactly for the braces that
  are not part of a balanced double-brace pair, so that a paragraph holding only
  well-formed markers gives no report. The source's comment says the same ("strings
  with { or } that are not placeholders"), and the lookbehind of its pattern is there
  to skip a doubled brace. The pattern does not do it: on the paragraph \<open>{{name}}\<close>,
  whose token \<open>extract_placeholders\<close> finds, the first alternative matches at the
  first brace and reports \<open>{{name}\<close>, and the second alternative reports the last
  brace. The single braces of \<open>Price: {5} units\<close> are reported as \<open>{5}\<close>, as the
  claim says; a lone opening brace is not reported at all.
\<close>

theorem find_invalid_braces_reports_placeholder:
  "find_invalid_braces (body_doc [plain (cps ''{{name}}'')]) = {cps ''{{name}'', cps ''}''}
   \<and> extract_placeholders (body_doc [plain (cps ''{{name}}'')]) = {cps ''name''}
   \<and> find_invalid_braces (body_doc [plain (cps ''Price: {5} units'')]) = {cps ''{5}''}
   \<and> find_invalid_braces (body_doc [plain (cps ''a { b'')]) = {}"
  by (simp add: find_invalid_braces_def extract_placeholders_def check_text_def body_doc_def
      plain_def full_text_def cps_def)












section \<open>Normalisation and fuzzy matching, verified\<close>

lemma ucd_lower_cp_idem: "concat (map ucd_lower_cp (ucd_lower_cp c)) = ucd_lower_cp c"
  by (simp add: ucd_lower_cp_def)

lemma ucd_lower_idem: "lower ucd_fragment (lower ucd_fragment t) = lower ucd_fragment t"
  by (induction t) (simp_all add: ucd_fragment_def ucd_lower_cp_idem)

lemma ucd_lower_cp_alnum:
  "c < 128 \<Longrightarrow> ucd_isalnum c \<Longrightarrow> \<forall>d\<in>set (ucd_lower_cp c). ucd_isalnum d"
  by (auto simp: ucd_lower_cp_def ucd_isalnum_def)

lemma normalize_text_ascii_alnum:
  "\<forall>c\<in>set s. c < 128 \<Longrightarrow>
     \<forall>c\<in>set (normalize_text ucd_fragment s). isalnum ucd_fragment c"
proof (induction s)
  case Nil
  show ?case by (simp add: normalize_text_def ucd_fragment_def)
next
  case (Cons a s)
  then have ih: "\<forall>c\<in>set (normalize_text ucd_fragment s). isalnum ucd_fragment c"
    and a: "a < 128" by simp_all
  show ?case
  proof (cases "ucd_isalnum a")
    case True
    from ucd_lower_cp_alnum[OF a True] ih True show ?thesis
      by (auto simp: normalize_text_def ucd_fragment_def)
  next
    case False
    with ih show ?thesis by (simp add: normalize_text_def ucd_fragment_def)
  qed
qed

text \<open>
  C7, as the specification states it, fails on Python's strings: \<open>U+0130\<close> is
  alphanumeric and its lower case is \<open>U+0069 U+0307\<close>, whose second code point is a
  combining mark that the filter of a second call removes.
\<close>

theorem normalize_text_not_idempotent_counterexample:
  "normalize_text ucd_fragment [304] = [105, 775]
   \<and> normalize_text ucd_fragment (normalize_text ucd_fragment [304]) = [105]
   \<and> normalize_text ucd_fragment (normalize_text ucd_fragment [304])
       \<noteq> normalize_text ucd_fragment [304]"
  by (simp add: normalize_text_def ucd_fragment_def ucd_isalnum_def ucd_lower_cp_def)

text \<open>
  C7, as the code has it. With a character database in which lower-casing a lower-cased
  string changes nothing, \<open>normalize_text\<close> is idempotent on every string whose normal
  form holds alphanumeric characters only. (The normal form of an ASCII string does:
  see \<open>normalize_text_ascii_alnum\<close>.)
\<close>

theorem normalize_text_idempotent:
  assumes "\<forall>t. lower db (lower db t) = lower db t"
    and "\<forall>c\<in>set (normalize_text db s). isalnum db c"
  shows "normalize_text db (normalize_text db s) = normalize_text db s"
proof -
  from assms(2) have "filter (isalnum db) (normalize_text db s) = normalize_text db s"
    by (simp add: filter_id_conv)
  then have "normalize_text db (normalize_text db s) = lower db (normalize_text db s)"
    by (simp add: normalize_text_def)
  also have "\<dots> = normalize_text db s"
    using assms(1) by (simp add: normalize_text_def)
  finally show ?thesis .
qed

theorem normalize_text_idempotent_witness:
  "(\<forall>t. lower ucd_fragment (lower ucd_fragment t) = lower ucd_fragment t)
   \<and> normalize_text ucd_fragment (cps ''Product Name (W1)'') = cps ''productnamew1''
   \<and> list_all (isalnum ucd_fragment) (cps ''productnamew1'')
   \<and> normalize_text ucd_fragment (normalize_text ucd_fragment (cps ''Product Name (W1)''))
       = normalize_text ucd_fragment (cps ''Product Name (W1)'')"
proof -
  have idem: "\<forall>t. lower ucd_fragment (lower ucd_fragment t) = lower ucd_fragment t"
    using ucd_lower_idem by blast
  have n: "normalize_text ucd_fragment (cps ''Product Name (W1)'') = cps ''productnamew1''"
    by (simp add: normalize_text_def ucd_fragment_def ucd_isalnum_def ucd_lower_cp_def cps_def)
  have al: "list_all (isalnum ucd_fragment) (cps ''productnamew1'')"
    by (simp add: ucd_fragment_def ucd_isalnum_def cps_def)
  have "\<forall>c\<in>set (cps ''Product Name (W1)''). c < 128" by (simp add: cps_def)
  then have "\<forall>c\<in>set (normalize_text ucd_fragment (cps ''Product Name (W1)'')). isalnum ucd_fragment c"
    by (rule normalize_text_ascii_alnum)
  from normalize_text_idempotent[OF idem this] idem n al show ?thesis by blast
qed

lemma fold_best:
  fixes sc :: scorer
  shows "fst (fold (\<lambda>x best. if snd best < sc q x then (x, sc q x) else best) cs (b, sc q b))
      \<in> insert b (set cs)
   \<and> snd (fold (\<lambda>x best. if snd best < sc q x then (x, sc q x) else best) cs (b, sc q b))
      = sc q (fst (fold (\<lambda>x best. if snd best < sc q x then (x, sc q x) else best) cs (b, sc q b)))
   \<and> sc q b \<le> snd (fold (\<lambda>x best. if snd best < sc q x then (x, sc q x) else best) cs (b, sc q b))
   \<and> (\<forall>x\<in>set cs. sc q x
        \<le> snd (fold (\<lambda>x best. if snd best < sc q x then (x, sc q x) else best) cs (b, sc q b)))"
proof (induction cs arbitrary: b)
  case Nil
  show ?case by simp
next
  case (Cons c cs)
  show ?case
  proof (cases "sc q b < sc q c")
    case True
    with Cons.IH[of c] show ?thesis by auto
  next
    case False
    with Cons.IH[of b] show ?thesis by auto
  qed
qed

lemma extractOne_Some:
  fixes sc :: scorer
  assumes "choices \<noteq> []"
  shows "\<exists>best score. extractOne sc q choices = Some (best, score) \<and> best \<in> set choices
           \<and> score = sc q best \<and> (\<forall>x\<in>set choices. sc q x \<le> score)"
proof -
  from assms obtain c cs where ch: "choices = c # cs" by (cases choices) auto
  let ?r = "fold (\<lambda>x best. if snd best < sc q x then (x, sc q x) else best) cs (c, sc q c)"
  have "extractOne sc q choices = Some (fst ?r, snd ?r)" by (simp add: extractOne_def ch)
  with fold_best[of sc q cs c] ch show ?thesis by auto
qed

lemma update_same_set:
  "\<forall>(c, n)\<in>set d. n = f c \<Longrightarrow> set (AList.update k (f k) d) = insert (k, f k) (set d)"
  by (induction d) auto

lemma norm_fold_set:
  "\<forall>(c, n)\<in>set d. n = f c \<Longrightarrow>
     set (fold (\<lambda>col d. AList.update col (f col) d) cols d) = set d \<union> (\<lambda>c. (c, f c)) ` set cols"
proof (induction cols arbitrary: d)
  case Nil
  show ?case by simp
next
  case (Cons k cols)
  have s: "set (AList.update k (f k) d) = insert (k, f k) (set d)"
    using Cons.prems by (rule update_same_set)
  then have "\<forall>(c, n)\<in>set (AList.update k (f k) d). n = f c" using Cons.prems by auto
  from Cons.IH[OF this] s show ?case by auto
qed

lemma norm_columns_set:
  "set (norm_columns db columns) = (\<lambda>c. (c, normalize_text db c)) ` set columns"
  using norm_fold_set[of "[]" "normalize_text db" columns] by (simp add: norm_columns_def)

lemma match_placeholder_ok:
  assumes "columns \<noteq> []"
  shows "\<exists>v best score. match_placeholder db sc columns thr p m = Inr (AList.update p v m)
           \<and> extractOne sc (normalize_text db p) (map snd (norm_columns db columns)) = Some (best, score)
           \<and> best \<in> normalize_text db ` set columns
           \<and> score = sc (normalize_text db p) best
           \<and> (\<forall>c\<in>set columns. sc (normalize_text db p) (normalize_text db c) \<le> score)
           \<and> (score < thr \<longrightarrow> v = (None, 0))
           \<and> (thr \<le> score \<longrightarrow> (\<exists>c\<in>set columns. normalize_text db c = best \<and> v = (Some c, score)))"
proof -
  let ?nc = "norm_columns db columns" and ?np = "normalize_text db p"
  have vals: "set (map snd ?nc) = normalize_text db ` set columns"
    by (simp add: norm_columns_set image_image)
  with assms have "map snd ?nc \<noteq> []" by auto
  from extractOne_Some[OF this, of sc ?np] obtain best score where
    ex: "extractOne sc ?np (map snd ?nc) = Some (best, score)" and
    b: "best \<in> set (map snd ?nc)" and s: "score = sc ?np best" and
    mx: "\<forall>x\<in>set (map snd ?nc). sc ?np x \<le> score" by blast
  from b vals have b': "best \<in> normalize_text db ` set columns" by simp
  have mx': "\<forall>c\<in>set columns. sc ?np (normalize_text db c) \<le> score"
  proof
    fix c assume "c \<in> set columns"
    then have "normalize_text db c \<in> set (map snd ?nc)" unfolding vals by simp
    with mx show "sc ?np (normalize_text db c) \<le> score" by blast
  qed
  show ?thesis
  proof (cases "thr \<le> score")
    case True
    from b have "\<exists>x\<in>set ?nc. (\<lambda>(col, norm_col). norm_col = best) x" by auto
    then obtain e where f: "find (\<lambda>(col, norm_col). norm_col = best) ?nc = Some e"
      by (cases "find (\<lambda>(col, norm_col). norm_col = best) ?nc") (auto simp: find_None_iff)
    then have "e \<in> set ?nc \<and> (\<lambda>(col, norm_col). norm_col = best) e"
      by (auto simp: find_Some_iff dest: nth_mem)
    then obtain c where e: "e = (c, best)" "c \<in> set columns" "normalize_text db c = best"
      by (auto simp: norm_columns_set)
    have "match_placeholder db sc columns thr p m = Inr (AList.update p (Some c, score) m)"
      using ex True f e(1) by (simp add: match_placeholder_def)
    with ex b' s mx' True e show ?thesis by (intro exI[of _ "(Some c, score)"]) auto
  next
    case False
    then have "match_placeholder db sc columns thr p m = Inr (AList.update p (None, 0) m)"
      using ex by (simp add: match_placeholder_def)
    with ex b' s mx' False show ?thesis by (intro exI[of _ "(None, 0)"]) auto
  qed
qed

lemma match_placeholder_no_columns:
  "match_placeholder db sc [] thr p m = Inl TypeError"
  by (simp add: match_placeholder_def norm_columns_def extractOne_def)

lemma fuzzy_loop_no_columns:
  "ps \<noteq> [] \<Longrightarrow> fuzzy_loop db sc [] thr ps m = Inl TypeError"
  by (cases ps) (simp_all add: match_placeholder_no_columns)

lemma fuzzy_loop_entries:
  assumes "columns \<noteq> []"
  shows "\<exists>m'. fuzzy_loop db sc columns thr ps m = Inr m'
           \<and> fst ` set m' = set ps \<union> fst ` set m
           \<and> (\<forall>q. q \<notin> set ps \<longrightarrow> map_of m' q = map_of m q)
           \<and> (\<forall>p\<in>set ps. \<exists>best score.
                 extractOne sc (normalize_text db p) (map snd (norm_columns db columns))
                   = Some (best, score)
                 \<and> best \<in> normalize_text db ` set columns
                 \<and> score = sc (normalize_text db p) best
                 \<and> (\<forall>c\<in>set columns. sc (normalize_text db p) (normalize_text db c) \<le> score)
                 \<and> (score < thr \<longrightarrow> map_of m' p = Some (None, 0))
                 \<and> (thr \<le> score \<longrightarrow>
                      (\<exists>c\<in>set columns. normalize_text db c = best
                          \<and> map_of m' p = Some (Some c, score))))"
proof (induction ps arbitrary: m)
  case Nil
  show ?case by simp
next
  case (Cons p ps)
  from match_placeholder_ok[OF assms, of db sc thr p m] obtain v best score where
    step: "match_placeholder db sc columns thr p m = Inr (AList.update p v m)" and
    ex: "extractOne sc (normalize_text db p) (map snd (norm_columns db columns)) = Some (best, score)" and
    b: "best \<in> normalize_text db ` set columns" and
    s: "score = sc (normalize_text db p) best" and
    mx: "\<forall>c\<in>set columns. sc (normalize_text db p) (normalize_text db c) \<le> score" and
    lo: "score < thr \<longrightarrow> v = (None, 0)" and
    hi: "thr \<le> score \<longrightarrow> (\<exists>c\<in>set columns. normalize_text db c = best \<and> v = (Some c, score))"
    by blast
  let ?m1 = "AList.update p v m"
  from Cons.IH[of ?m1] obtain m' where
    run: "fuzzy_loop db sc columns thr ps ?m1 = Inr m'" and
    keys: "fst ` set m' = set ps \<union> fst ` set ?m1" and
    keep: "\<forall>q. q \<notin> set ps \<longrightarrow> map_of m' q = map_of ?m1 q" and
    ents: "\<forall>p\<in>set ps. \<exists>best score.
                 extractOne sc (normalize_text db p) (map snd (norm_columns db columns))
                   = Some (best, score)
                 \<and> best \<in> normalize_text db ` set columns
                 \<and> score = sc (normalize_text db p) best
                 \<and> (\<forall>c\<in>set columns. sc (normalize_text db p) (normalize_text db c) \<le> score)
                 \<and> (score < thr \<longrightarrow> map_of m' p = Some (None, 0))
                 \<and> (thr \<le> score \<longrightarrow>
                      (\<exists>c\<in>set columns. normalize_text db c = best
                          \<and> map_of m' p = Some (Some c, score)))"
    by blast
  have r: "fuzzy_loop db sc columns thr (p # ps) m = Inr m'" using step run by simp
  have k: "fst ` set m' = set (p # ps) \<union> fst ` set m" using keys by (auto simp: dom_update)
  have kp: "\<forall>q. q \<notin> set (p # ps) \<longrightarrow> map_of m' q = map_of m q"
    using keep by (simp add: update_conv')
  have here: "\<exists>best score.
                 extractOne sc (normalize_text db p) (map snd (norm_columns db columns))
                   = Some (best, score)
                 \<and> best \<in> normalize_text db ` set columns
                 \<and> score = sc (normalize_text db p) best
                 \<and> (\<forall>c\<in>set columns. sc (normalize_text db p) (normalize_text db c) \<le> score)
                 \<and> (score < thr \<longrightarrow> map_of m' p = Some (None, 0))
                 \<and> (thr \<le> score \<longrightarrow>
                      (\<exists>c\<in>set columns. normalize_text db c = best
                          \<and> map_of m' p = Some (Some c, score)))"
  proof (cases "p \<in> set ps")
    case True
    with ents show ?thesis by blast
  next
    case False
    with keep have "map_of m' p = Some v" by (simp add: update_conv')
    with ex b s mx lo hi show ?thesis by auto
  qed
  from r k kp here ents show ?case by auto
qed

text \<open>
  C6. With at least one column, \<open>fuzzy_match_placeholders\<close> returns a mapping, and for
  every placeholder: let \<open>score\<close> be the best score of the normalized placeholder
  against the normalized columns, and \<open>best\<close> the normalized column \<open>extractOne\<close>
  returns with it. Below the threshold (85 by default) the placeholder is mapped to
  \<open>(None, 0)\<close>; otherwise it is mapped to \<open>(c, score)\<close> for an original column name
  \<open>c\<close> whose normal form is \<open>best\<close>.
\<close>

theorem fuzzy_match_threshold:
  assumes "columns \<noteq> []" and "p \<in> set placeholders"
  shows "\<exists>m best score.
           fuzzy_match_placeholders db sc placeholders columns thr = Inr m
         \<and> extractOne sc (normalize_text db p) (map snd (norm_columns db columns))
             = Some (best, score)
         \<and> best \<in> normalize_text db ` set columns
         \<and> score = sc (normalize_text db p) best
         \<and> (\<forall>c\<in>set columns. sc (normalize_text db p) (normalize_text db c) \<le> score)
         \<and> (score < thr \<longrightarrow> map_of m p = Some (None, 0))
         \<and> (thr \<le> score \<longrightarrow>
              (\<exists>c\<in>set columns. normalize_text db c = best \<and> map_of m p = Some (Some c, score)))"
  using fuzzy_loop_entries[OF assms(1), of db sc thr placeholders "[]"] assms(2)
  unfolding fuzzy_match_placeholders_def by blast

theorem fuzzy_match_threshold_witness:
  "[cps ''Code'', cps ''product-name''] \<noteq> []
   \<and> cps ''Product Name'' \<in> set [cps ''Product Name'', cps ''Price'']
   \<and> fuzzy_match_placeholders ucd_fragment eq_scorer [cps ''Product Name'', cps ''Price'']
        [cps ''Code'', cps ''product-name''] 85
      = Inr [(cps ''Product Name'', (Some (cps ''product-name''), 100)),
             (cps ''Price'', (None, 0))]
   \<and> extractOne eq_scorer (normalize_text ucd_fragment (cps ''Product Name''))
        (map snd (norm_columns ucd_fragment [cps ''Code'', cps ''product-name'']))
      = Some (cps ''productname'', 100)
   \<and> normalize_text ucd_fragment (cps ''product-name'') = cps ''productname''"
proof -
  have c: "[cps ''Code'', cps ''product-name''] \<noteq> []" by simp
  have p: "cps ''Product Name'' \<in> set [cps ''Product Name'', cps ''Price'']" by simp
  have n1: "normalize_text ucd_fragment (cps ''Product Name'') = cps ''productname''"
    and n2: "normalize_text ucd_fragment (cps ''product-name'') = cps ''productname''"
    and n3: "normalize_text ucd_fragment (cps ''Code'') = cps ''code''"
    and n4: "normalize_text ucd_fragment (cps ''Price'') = cps ''price''"
    by (simp_all add: normalize_text_def ucd_fragment_def ucd_isalnum_def ucd_lower_cp_def cps_def)
  have nc: "norm_columns ucd_fragment [cps ''Code'', cps ''product-name'']
      = [(cps ''Code'', cps ''code''), (cps ''product-name'', cps ''productname'')]"
    by (simp add: norm_columns_def n2 n3) (simp add: cps_def)
  have e1: "extractOne eq_scorer (cps ''productname'') [cps ''code'', cps ''productname'']
      = Some (cps ''productname'', 100)"
    by (simp add: extractOne_def eq_scorer_def cps_def)
  have e2: "extractOne eq_scorer (cps ''price'') [cps ''code'', cps ''productname'']
      = Some (cps ''code'', 0)"
    by (simp add: extractOne_def eq_scorer_def cps_def)
  have run: "fuzzy_match_placeholders ucd_fragment eq_scorer [cps ''Product Name'', cps ''Price'']
        [cps ''Code'', cps ''product-name''] 85
      = Inr [(cps ''Product Name'', (Some (cps ''product-name''), 100)),
             (cps ''Price'', (None, 0))]"
    by (simp add: fuzzy_match_placeholders_def match_placeholder_def n1 n4 nc e1 e2)
       (simp add: cps_def)
  from fuzzy_match_threshold[OF c p, of ucd_fragment eq_scorer 85] c p run n2
  show ?thesis by (simp add: n1 nc e1)
qed



end
